theory Spec2Isabelle
  imports Main "HOL-Library.Word"
begin

unbundle bit_operations_syntax

section \<open>The SPI datalink of the slice (drivers/greybus/slice/datalink-spi.c)\<close>

text \<open>
  The driver fragments a message of the network layer into fixed-size SPI packets
  (\<open>queue_data\<close>), arms one SPI exchange at a time under the RDY/WAKE handshake
  (\<open>setup_exchange\<close>), reassembles the packets it receives (\<open>txn_finished_cb\<close>) and
  drops the unsent packets on detach (\<open>attach_cb\<close>). Each C function is a HOL function
  of the same name on a record of the driver's state.
\<close>

subsection \<open>Packets\<close>

type_synonym u8 = "8 word"
type_synonym size_t = "32 word"

text \<open>
  Bytes are \<open>__u8\<close>; \<open>size_t\<close> is the unsigned 32-bit integer of the 32-bit targets the
  driver is built for.

  \<open>#define SLICE_SPI_MSG_PAYLOAD_SZ (32)\<close>, and the header bits.
\<close>

definition SLICE_SPI_MSG_PAYLOAD_SZ :: nat where
  "SLICE_SPI_MSG_PAYLOAD_SZ = 32"

definition HDR_BIT_VALID :: u8 where
  "HDR_BIT_VALID = push_bit 7 1"

definition HDR_BIT_MORE :: u8 where
  "HDR_BIT_MORE = push_bit 6 1"

text \<open>\<open>struct slice_spi_msg\<close>: \<open>data\<close> is an array of 32 bytes.\<close>

record slice_spi_msg =
  hdr_bits :: u8
  data :: "u8 list"
  crc16 :: "16 word"

text \<open>\<open>zalloc(sizeof(struct slice_spi_msg))\<close>, when it succeeds: a packet of zero bytes.\<close>

definition zalloc_msg :: slice_spi_msg where
  "zalloc_msg = \<lparr>hdr_bits = 0, data = replicate SLICE_SPI_MSG_PAYLOAD_SZ 0, crc16 = 0\<rparr>"

text \<open>\<open>memcpy(dst, src, n)\<close> on the start of an array \<open>dst\<close> that holds at least \<open>n\<close> bytes.\<close>

definition memcpy :: "u8 list \<Rightarrow> u8 list \<Rightarrow> nat \<Rightarrow> u8 list" where
  "memcpy dst src n = take n src @ drop n dst"

text \<open>
  A write of the bytes \<open>src\<close> into the array \<open>dst\<close> at offset \<open>off\<close>
  (\<open>memcpy(&dst[off], src, n)\<close>, \<open>memset(dst, 0, n)\<close>). A write that does not lie inside
  the array is undefined behaviour in C: the model returns \<open>None\<close> for it.
\<close>

definition buf_write :: "u8 list \<Rightarrow> int \<Rightarrow> u8 list \<Rightarrow> u8 list option" where
  "buf_write dst off src =
     (if 0 \<le> off \<and> nat off + length src \<le> length dst
      then Some (take (nat off) dst @ src @ drop (nat off + length src) dst)
      else None)"

subsection \<open>The state of the driver\<close>

text \<open>
  \<open>struct slice_spi_dl_s\<close>, together with what the driver reads and drives outside of it:
  the levels of the two handshake lines as \<open>gpio_get_value\<close> reads them and
  \<open>gpio_set_value\<close> sets them (\<open>True\<close> is level 1; both lines are active low), the value
  last passed to \<open>slice_host_int_set\<close>, the number of exchanges handed to the SPI
  controller by \<open>SPI_EXCHANGE\<close> and not yet completed, and the messages passed to the
  \<open>recv\<close> callback of the network layer, oldest first. \<open>tx_dummy_buf\<close>, which is never
  written, and the handles \<open>spi\<close> and \<open>cb\<close> are left out.
\<close>

record slice_spi_dl_s =
  tx_fifo :: "slice_spi_msg list"
  rx_buf :: slice_spi_msg
  tx_buf :: "slice_spi_msg option"
  rcvd_payload :: "u8 list"
  rcvd_payload_idx :: int
  gpio_rdy_n :: bool
  gpio_wake_n :: bool
  host_int :: bool
  spi_pending :: nat
  recv_calls :: "u8 list list"

text \<open>The two errors of \<open>queue_data\<close>, returned negated; \<open>None\<close> is the return value 0.\<close>

datatype errno = E2BIG | ENOMEM

text \<open>
  Modelled from the spec: \<open>list_add\<close> of nuttx/list.h, which is not among the sources.
  The Outbound Queue is "FIFO, insertion order = transmission order" and
  \<open>setup_exchange\<close> takes \<open>tx_fifo.next\<close>, the head: \<open>list_add\<close> adds at the tail.
\<close>

definition list_add :: "'a list \<Rightarrow> 'a \<Rightarrow> 'a list" where
  "list_add head node = head @ [node]"

text \<open>
  Modelled from the spec: \<open>SPI_EXCHANGE\<close> of nuttx/spi/spi.h, which is not among the
  sources, "issue the exchange request to the hardware-channel collaborator": one more
  exchange is with the SPI controller until its completion callback runs.
\<close>

definition SPI_EXCHANGE :: "slice_spi_dl_s \<Rightarrow> slice_spi_dl_s" where
  "SPI_EXCHANGE priv = priv\<lparr>spi_pending := spi_pending priv + 1\<rparr>"

text \<open>
  Modelled from the spec: \<open>SPI_SLAVE_DMA_CANCEL\<close> of nuttx/spi/spi.h, which is not among
  the sources, "request cancellation of any outstanding hardware exchange".
\<close>

definition SPI_SLAVE_DMA_CANCEL :: "slice_spi_dl_s \<Rightarrow> slice_spi_dl_s" where
  "SPI_SLAVE_DMA_CANCEL priv = priv\<lparr>spi_pending := 0\<rparr>"

subsection \<open>setup_exchange\<close>

definition setup_exchange :: "slice_spi_dl_s \<Rightarrow> slice_spi_dl_s" where
  "setup_exchange priv =
     (let priv' =
        (if \<not> gpio_rdy_n priv then priv
         else if gpio_wake_n priv then priv
         else
           (case tx_fifo priv of
              [] \<Rightarrow> SPI_EXCHANGE priv
            | node # rest \<Rightarrow> SPI_EXCHANGE (priv\<lparr>tx_fifo := rest, tx_buf := Some node\<rparr>))
           \<lparr>gpio_rdy_n := False\<rparr>)
      in priv'\<lparr>host_int := (tx_buf priv' \<noteq> None)\<rparr>)"

subsection \<open>attach_cb\<close>

text \<open>The \<open>list_foreach_safe\<close> loop: every node is unlinked and freed.\<close>

fun drain_fifo :: "slice_spi_msg list \<Rightarrow> slice_spi_msg list" where
  "drain_fifo [] = []"
| "drain_fifo (node # rest) = drain_fifo rest"

definition attach_cb :: "bool \<Rightarrow> slice_spi_dl_s \<Rightarrow> slice_spi_dl_s" where
  "attach_cb attached priv =
     (if \<not> attached
      then (let priv' = SPI_SLAVE_DMA_CANCEL priv
            in priv'\<lparr>tx_fifo := drain_fifo (tx_fifo priv')\<rparr>)
      else priv)"

subsection \<open>txn_finished_cb\<close>

text \<open>
  The completion callback of the SPI controller. The received packet is in \<open>rx_buf\<close>.
  \<open>max_sz\<close> is \<open>SLICE_DL_PAYLOAD_MAX_SZ\<close>, the size of \<open>rcvd_payload\<close>; datalink.h, which
  defines it, is not among the sources, so it is a parameter. The result is \<open>None\<close>
  when a write leaves \<open>rcvd_payload\<close>. The cursor is a C \<open>int\<close>; it is only advanced from
  below \<open>SLICE_DL_PAYLOAD_MAX_SZ\<close>, so the addition does not overflow and the model uses
  the integers.
\<close>

definition deliver :: "slice_spi_dl_s \<Rightarrow> slice_spi_dl_s" where
  "deliver priv =
     priv\<lparr>recv_calls :=
            recv_calls priv @ [take (nat (rcvd_payload_idx priv)) (rcvd_payload priv)]\<rparr>"

definition txn_finished_cb :: "nat \<Rightarrow> slice_spi_dl_s \<Rightarrow> slice_spi_dl_s option" where
  "txn_finished_cb max_sz priv0 =
     (let m = rx_buf priv0;
          priv1 = priv0\<lparr>gpio_rdy_n := True\<rparr>;
          priv = (if tx_buf priv1 \<noteq> None then priv1\<lparr>tx_buf := None\<rparr> else priv1)
      in
        if hdr_bits m AND HDR_BIT_VALID = 0 then Some (setup_exchange priv)
        else if rcvd_payload_idx priv \<ge> int max_sz then Some (setup_exchange priv)
        else
          (case buf_write (rcvd_payload priv) (rcvd_payload_idx priv)
                  (take SLICE_SPI_MSG_PAYLOAD_SZ (data m)) of
             None \<Rightarrow> None
           | Some payload \<Rightarrow>
               (let priv2 = priv\<lparr>rcvd_payload := payload,
                                 rcvd_payload_idx :=
                                   rcvd_payload_idx priv + int SLICE_SPI_MSG_PAYLOAD_SZ\<rparr>
                in
                  if hdr_bits m AND HDR_BIT_MORE \<noteq> 0 then Some (setup_exchange priv2)
                  else
                    (let priv3 = deliver priv2
                     in case buf_write (rcvd_payload priv3) 0
                               (replicate SLICE_SPI_MSG_PAYLOAD_SZ 0) of
                          None \<Rightarrow> None
                        | Some cleared \<Rightarrow>
                            Some (setup_exchange
                                    (priv3\<lparr>rcvd_payload := cleared,
                                           rcvd_payload_idx := 0\<rparr>))))))"

text \<open>
  The SPI controller completes an exchange: it has stored the received packet \<open>m\<close> in
  \<open>rx_buf\<close> and calls \<open>txn_finished_cb\<close>.
\<close>

definition spi_complete :: "nat \<Rightarrow> slice_spi_msg \<Rightarrow> slice_spi_dl_s \<Rightarrow> slice_spi_dl_s option" where
  "spi_complete max_sz m priv =
     txn_finished_cb max_sz (priv\<lparr>rx_buf := m, spi_pending := spi_pending priv - 1\<rparr>)"

text \<open>A sequence of packets received one after the other; it stops at a faulting write.\<close>

fun receive_all :: "nat \<Rightarrow> slice_spi_msg list \<Rightarrow> slice_spi_dl_s \<Rightarrow> slice_spi_dl_s option" where
  "receive_all max_sz [] priv = Some priv"
| "receive_all max_sz (m # ms) priv =
     (case spi_complete max_sz m priv of
        None \<Rightarrow> None
      | Some priv' \<Rightarrow> receive_all max_sz ms priv')"

subsection \<open>queue_data\<close>

text \<open>
  One packet of the loop body, after both allocations have succeeded. \<open>buf\<close> is the
  message, \<open>len\<close> its length and \<open>remaining\<close> the loop variable; the numeral 32 is
  \<open>SLICE_SPI_MSG_PAYLOAD_SZ\<close> as a \<open>size_t\<close>, and \<open>min\<close> is the macro \<open>MIN\<close>.
\<close>

definition fill_msg :: "u8 list \<Rightarrow> size_t \<Rightarrow> size_t \<Rightarrow> slice_spi_msg" where
  "fill_msg buf len remaining =
     (let m0 = zalloc_msg;
          m1 = m0\<lparr>hdr_bits := hdr_bits m0 OR HDR_BIT_VALID\<rparr>;
          m2 = m1\<lparr>hdr_bits := hdr_bits m1 OR
                                 (if remaining > 32 then HDR_BIT_MORE else 0)\<rparr>;
          m3 = m2\<lparr>data := memcpy (data m2) buf (unat (min len 32))\<rparr>
      in m3\<lparr>crc16 := 0\<rparr>)"

text \<open>
  The \<open>while (remaining > 0)\<close> loop. \<open>remaining\<close> is a \<open>size_t\<close>: the subtraction wraps.
  The list of booleans gives the outcomes of the allocation requests in the order they are
  made (\<open>zalloc\<close> of the packet, then \<open>malloc\<close> of the node, in every iteration); memory is
  finite, so a request after the end of the list fails. The result is the return value and
  the queue.
\<close>

fun queue_loop ::
  "u8 list \<Rightarrow> size_t \<Rightarrow> size_t \<Rightarrow> bool list \<Rightarrow> slice_spi_msg list
     \<Rightarrow> errno option \<times> slice_spi_msg list" where
  "queue_loop buf len remaining [] fifo =
     (if remaining > 0 then (Some ENOMEM, fifo) else (None, fifo))"
| "queue_loop buf len remaining [a1] fifo =
     (if remaining > 0 then (Some ENOMEM, fifo) else (None, fifo))"
| "queue_loop buf len remaining (a1 # a2 # heap) fifo =
     (if remaining > 0 then
        (if \<not> a1 then (Some ENOMEM, fifo)
         else if \<not> a2 then (Some ENOMEM, fifo)
         else queue_loop buf len (remaining - min len 32) heap
                (list_add fifo (fill_msg buf len remaining)))
      else (None, fifo))"

text \<open>\<open>queue_data(dl, buf, len)\<close>, where \<open>len\<close> is the length of \<open>buf\<close>.\<close>

definition queue_data ::
  "nat \<Rightarrow> bool list \<Rightarrow> u8 list \<Rightarrow> slice_spi_dl_s \<Rightarrow> errno option \<times> slice_spi_dl_s" where
  "queue_data max_sz heap buf priv =
     (let len = (word_of_nat (length buf) :: size_t)
      in if unat len > max_sz then (Some E2BIG, priv)
         else
           (case queue_loop buf len len heap (tx_fifo priv) of
              (Some e, fifo) \<Rightarrow> (Some e, priv\<lparr>tx_fifo := fifo\<rparr>)
            | (None, fifo) \<Rightarrow> (None, setup_exchange (priv\<lparr>tx_fifo := fifo\<rparr>))))"

subsection \<open>wake_isr and slice_dl_init\<close>

definition wake_isr :: "slice_spi_dl_s \<Rightarrow> slice_spi_dl_s" where
  "wake_isr priv = setup_exchange priv"

text \<open>
  The state after a successful \<open>slice_dl_init\<close>: the static instance is zero, the queue
  is empty and RDY is driven to 1. The levels of the WAKE line and of the interrupt line
  to the base are what they happen to be.
\<close>

definition slice_dl_init :: "nat \<Rightarrow> bool \<Rightarrow> bool \<Rightarrow> slice_spi_dl_s" where
  "slice_dl_init max_sz wake hint =
     \<lparr>tx_fifo = [], rx_buf = zalloc_msg, tx_buf = None,
      rcvd_payload = replicate max_sz 0, rcvd_payload_idx = 0,
      gpio_rdy_n = True, gpio_wake_n = wake, host_int = hint,
      spi_pending = 0, recv_calls = []\<rparr>"

subsection \<open>The events that drive the driver\<close>

text \<open>
  The driver runs when the network layer sends (\<open>queue_data\<close>, with the outcomes of its
  allocation requests and the message), when the base changes the level of the WAKE line,
  when the WAKE interrupt is served (\<open>wake_isr\<close>), when the SPI controller completes an
  exchange that is outstanding (\<open>txn_finished_cb\<close> on the packet received) and when the
  slice is attached or detached (\<open>attach_cb\<close>). Each event runs to its end before the
  next one. \<open>fire\<close> is \<open>None\<close> for a completion with no exchange outstanding, which the
  controller does not report, and for a write outside \<open>rcvd_payload\<close>.
\<close>

datatype trigger =
    Send "bool list" "u8 list"
  | WakeLevel bool
  | WakeIrq
  | Complete slice_spi_msg
  | Attach bool

fun fire :: "nat \<Rightarrow> trigger \<Rightarrow> slice_spi_dl_s \<Rightarrow> slice_spi_dl_s option" where
  "fire max_sz (Send heap buf) priv = Some (snd (queue_data max_sz heap buf priv))"
| "fire max_sz (WakeLevel w) priv = Some (priv\<lparr>gpio_wake_n := w\<rparr>)"
| "fire max_sz WakeIrq priv = Some (wake_isr priv)"
| "fire max_sz (Complete m) priv =
     (if 0 < spi_pending priv then spi_complete max_sz m priv else None)"
| "fire max_sz (Attach attached) priv = Some (attach_cb attached priv)"

fun run :: "nat \<Rightarrow> trigger list \<Rightarrow> slice_spi_dl_s \<Rightarrow> slice_spi_dl_s option" where
  "run max_sz [] priv = Some priv"
| "run max_sz (t # ts) priv =
     (case fire max_sz t priv of None \<Rightarrow> None | Some priv' \<Rightarrow> run max_sz ts priv')"



subsection \<open>Reading the header of a packet\<close>

definition is_valid :: "slice_spi_msg \<Rightarrow> bool" where
  "is_valid m \<longleftrightarrow> hdr_bits m AND HDR_BIT_VALID \<noteq> 0"

definition has_more :: "slice_spi_msg \<Rightarrow> bool" where
  "has_more m \<longleftrightarrow> hdr_bits m AND HDR_BIT_MORE \<noteq> 0"

text \<open>A packet with header byte \<open>h\<close> whose 32 payload bytes are all \<open>b\<close>.\<close>

definition pkt :: "u8 \<Rightarrow> u8 \<Rightarrow> slice_spi_msg" where
  "pkt h b = \<lparr>hdr_bits = h, data = replicate 32 b, crc16 = 0\<rparr>"

subsection \<open>Invariants used in the proofs\<close>

text \<open>The reassembly buffer has its declared size and the cursor is a multiple of 32 inside it.\<close>

definition reasm_ok :: "nat \<Rightarrow> slice_spi_dl_s \<Rightarrow> bool" where
  "reasm_ok max_sz priv \<longleftrightarrow>
     length (rcvd_payload priv) = max_sz \<and> 0 \<le> rcvd_payload_idx priv
     \<and> 32 dvd rcvd_payload_idx priv \<and> rcvd_payload_idx priv \<le> int max_sz"

definition idx_inv :: "nat \<Rightarrow> slice_spi_dl_s \<Rightarrow> bool" where
  "idx_inv max_sz priv \<longleftrightarrow>
     0 \<le> rcvd_payload_idx priv \<and> 32 dvd rcvd_payload_idx priv
     \<and> (32 dvd max_sz \<longrightarrow> rcvd_payload_idx priv \<le> int max_sz)"

text \<open>The RDY line is asserted (level 0) whenever an exchange is with the controller.\<close>

definition one_exchange :: "slice_spi_dl_s \<Rightarrow> bool" where
  "one_exchange priv \<longleftrightarrow>
     spi_pending priv \<le> 1 \<and> (spi_pending priv = 1 \<longrightarrow> \<not> gpio_rdy_n priv)"

section \<open>Properties\<close>

text \<open>The definitions unfolded when the driver is run on given inputs.\<close>

lemmas driver_defs =
  queue_data_def slice_dl_init_def setup_exchange_def SPI_EXCHANGE_def wake_isr_def Let_def
  fill_msg_def zalloc_msg_def memcpy_def list_add_def HDR_BIT_VALID_def HDR_BIT_MORE_def
  SLICE_SPI_MSG_PAYLOAD_SZ_def spi_complete_def txn_finished_cb_def buf_write_def
  deliver_def pkt_def attach_cb_def SPI_SLAVE_DMA_CANCEL_def is_valid_def has_more_def

subsection \<open>What the other functions leave alone\<close>

lemma setup_exchange_reasm [simp]:
  "rcvd_payload_idx (setup_exchange priv) = rcvd_payload_idx priv"
  "rcvd_payload (setup_exchange priv) = rcvd_payload priv"
  "recv_calls (setup_exchange priv) = recv_calls priv"
  by (simp_all add: setup_exchange_def SPI_EXCHANGE_def Let_def split: list.split)

lemma queue_data_reasm [simp]:
  "rcvd_payload_idx (snd (queue_data max_sz heap buf priv)) = rcvd_payload_idx priv"
  "rcvd_payload (snd (queue_data max_sz heap buf priv)) = rcvd_payload priv"
  "recv_calls (snd (queue_data max_sz heap buf priv)) = recv_calls priv"
  by (simp_all add: queue_data_def Let_def split: prod.split option.split)

lemma attach_cb_reasm [simp]:
  "rcvd_payload_idx (attach_cb a priv) = rcvd_payload_idx priv"
  "rcvd_payload (attach_cb a priv) = rcvd_payload priv"
  "recv_calls (attach_cb a priv) = recv_calls priv"
  by (simp_all add: attach_cb_def SPI_SLAVE_DMA_CANCEL_def Let_def)

lemma drain_fifo_empty [simp]: "drain_fifo q = []"
  by (induction q) simp_all

lemma setup_exchange_armed:
  "\<not> gpio_rdy_n priv \<Longrightarrow> setup_exchange priv = priv\<lparr>host_int := (tx_buf priv \<noteq> None)\<rparr>"
  by (simp add: setup_exchange_def)

lemma txn_finished_cb_setup:
  assumes "txn_finished_cb max_sz priv = Some priv'"
  shows "\<exists>q. priv' = setup_exchange q \<and> spi_pending q = spi_pending priv"
  using assms
  by (auto simp: txn_finished_cb_def Let_def deliver_def
           split: if_splits option.splits)

lemma txn_finished_cb_idx:
  assumes "txn_finished_cb max_sz priv = Some priv'"
  shows "rcvd_payload_idx priv' = rcvd_payload_idx priv
         \<or> rcvd_payload_idx priv' = 0
         \<or> (rcvd_payload_idx priv < int max_sz
              \<and> rcvd_payload_idx priv' = rcvd_payload_idx priv + 32)"
  using assms
  by (auto simp: txn_finished_cb_def Let_def deliver_def SLICE_SPI_MSG_PAYLOAD_SZ_def
           split: if_splits option.splits)

lemma next_multiple_fits:
  "32 dvd (m::nat) \<Longrightarrow> 32 dvd (i::int) \<Longrightarrow> i < int m \<Longrightarrow> i + 32 \<le> int m"
  by presburger

subsection \<open>The reassembly cursor\<close>

lemma idx_inv_fire:
  assumes "idx_inv max_sz priv" "fire max_sz t priv = Some priv'"
  shows "idx_inv max_sz priv'"
proof (cases t)
  case (Complete m)
  with assms(2) have
    "txn_finished_cb max_sz (priv\<lparr>rx_buf := m, spi_pending := spi_pending priv - 1\<rparr>)
       = Some priv'"
    by (simp add: spi_complete_def split: if_splits)
  from txn_finished_cb_idx[OF this] assms(1) show ?thesis
    by (auto simp: idx_inv_def intro: next_multiple_fits)
qed (use assms in \<open>auto simp: idx_inv_def wake_isr_def\<close>)

lemma idx_inv_run:
  "idx_inv max_sz priv \<Longrightarrow> run max_sz ts priv = Some priv' \<Longrightarrow> idx_inv max_sz priv'"
proof (induction ts arbitrary: priv)
  case Nil
  then show ?case by simp
next
  case (Cons t ts)
  then show ?case by (auto split: option.splits dest: idx_inv_fire)
qed

lemma idx_inv_init: "idx_inv max_sz (slice_dl_init max_sz wake hint)"
  by (simp add: idx_inv_def slice_dl_init_def)

text \<open>
  As long as no write has left \<open>rcvd_payload\<close>, the cursor is a non-negative multiple of
  \<open>SLICE_SPI_MSG_PAYLOAD_SZ\<close>, and at most \<open>SLICE_DL_PAYLOAD_MAX_SZ\<close> when that is a
  multiple of \<open>SLICE_SPI_MSG_PAYLOAD_SZ\<close>.
\<close>

lemma rcvd_payload_idx_multiple_while_defined:
  assumes "run max_sz ts (slice_dl_init max_sz wake hint) = Some priv"
  shows "0 \<le> rcvd_payload_idx priv
         \<and> int SLICE_SPI_MSG_PAYLOAD_SZ dvd rcvd_payload_idx priv
         \<and> (SLICE_SPI_MSG_PAYLOAD_SZ dvd max_sz \<longrightarrow> rcvd_payload_idx priv \<le> int max_sz)"
proof -
  have "idx_inv max_sz priv"
    using idx_inv_run[OF idx_inv_init assms] .
  then show ?thesis
    by (simp add: idx_inv_def SLICE_SPI_MSG_PAYLOAD_SZ_def)
qed

subsection \<open>One exchange at a time\<close>

lemma one_exchange_setup:
  "one_exchange priv \<Longrightarrow> one_exchange (setup_exchange priv)"
  by (auto simp: one_exchange_def setup_exchange_def SPI_EXCHANGE_def Let_def
           split: list.split)

lemma one_exchange_fifo [simp]:
  "one_exchange (priv\<lparr>tx_fifo := q\<rparr>) = one_exchange priv"
  by (simp add: one_exchange_def)

lemma one_exchange_queue_data:
  "one_exchange priv \<Longrightarrow> one_exchange (snd (queue_data max_sz heap buf priv))"
  by (auto simp: queue_data_def Let_def one_exchange_setup split: prod.split option.split)

lemma one_exchange_idle: "spi_pending q = 0 \<Longrightarrow> one_exchange q"
  by (simp add: one_exchange_def)

lemma one_exchange_fire:
  assumes "one_exchange priv" "fire max_sz t priv = Some priv'"
  shows "one_exchange priv'"
proof (cases t)
  case (Send heap buf)
  with assms show ?thesis by (auto simp: one_exchange_queue_data)
next
  case (WakeLevel w)
  with assms show ?thesis by (auto simp: one_exchange_def)
next
  case WakeIrq
  with assms show ?thesis by (auto simp: wake_isr_def one_exchange_setup)
next
  case (Complete m)
  with assms(2) have pend: "0 < spi_pending priv"
    and cb: "txn_finished_cb max_sz (priv\<lparr>rx_buf := m, spi_pending := spi_pending priv - 1\<rparr>)
               = Some priv'"
    by (simp_all add: spi_complete_def split: if_splits)
  from assms(1) pend have "spi_pending priv = 1" by (simp add: one_exchange_def)
  with txn_finished_cb_setup[OF cb] obtain q
    where "priv' = setup_exchange q" "spi_pending q = 0" by auto
  then show ?thesis by (simp add: one_exchange_idle one_exchange_setup)
next
  case (Attach a)
  with assms show ?thesis
    by (auto simp: attach_cb_def SPI_SLAVE_DMA_CANCEL_def one_exchange_def Let_def
             split: if_splits)
qed

lemma one_exchange_run:
  "one_exchange priv \<Longrightarrow> run max_sz ts priv = Some priv' \<Longrightarrow> one_exchange priv'"
proof (induction ts arbitrary: priv)
  case Nil
  then show ?case by simp
next
  case (Cons t ts)
  then show ?case by (auto split: option.splits dest: one_exchange_fire)
qed

lemma one_exchange_init: "one_exchange (slice_dl_init max_sz wake hint)"
  by (simp add: one_exchange_def slice_dl_init_def)

text \<open>
  C3: in every state the driver reaches from \<open>slice_dl_init\<close> at most one exchange is
  outstanding, and while one is outstanding \<open>setup_exchange\<close> starts no other: it leaves
  the queue, \<open>tx_buf\<close>, the RDY line and the controller as they are and only passes
  \<open>tx_buf != NULL\<close> to \<open>slice_host_int_set\<close>.
\<close>

theorem setup_exchange_noop_while_outstanding:
  assumes "run max_sz ts (slice_dl_init max_sz wake hint) = Some priv"
  shows "spi_pending priv \<le> 1
         \<and> (0 < spi_pending priv \<longrightarrow>
              setup_exchange priv = priv\<lparr>host_int := (tx_buf priv \<noteq> None)\<rparr>)"
proof -
  have "one_exchange priv"
    using one_exchange_run[OF one_exchange_init assms] .
  then show ?thesis
    by (auto simp: one_exchange_def setup_exchange_armed)
qed

theorem setup_exchange_noop_while_outstanding_witness:
  "\<exists>priv. run 64 [Send [True, True] [1, 2, 3], WakeLevel False, WakeIrq]
             (slice_dl_init 64 True False) = Some priv
     \<and> spi_pending priv = 1
     \<and> setup_exchange priv = priv\<lparr>host_int := (tx_buf priv \<noteq> None)\<rparr>"
proof -
  have "\<exists>priv. run 64 [Send [True, True] [1, 2, 3], WakeLevel False, WakeIrq]
                  (slice_dl_init 64 True False) = Some priv \<and> spi_pending priv = 1"
    by (simp add: driver_defs)
  then obtain priv where
    r: "run 64 [Send [True, True] [1, 2, 3], WakeLevel False, WakeIrq]
          (slice_dl_init 64 True False) = Some priv"
    and p: "spi_pending priv = 1"
    by blast
  from setup_exchange_noop_while_outstanding[OF r] p
  have "setup_exchange priv = priv\<lparr>host_int := (tx_buf priv \<noteq> None)\<rparr>"
    by simp
  with r p show ?thesis by blast
qed

subsection \<open>Reassembly at capacity\<close>

lemma length_buf_write: "buf_write dst off src = Some dst' \<Longrightarrow> length dst' = length dst"
  by (auto simp: buf_write_def split: if_splits)

lemma buf_write_in_bounds:
  "0 \<le> off \<Longrightarrow> nat off + length src \<le> length dst
     \<Longrightarrow> \<exists>dst'. buf_write dst off src = Some dst'"
  by (simp add: buf_write_def)

text \<open>A valid packet with MORE set is stored when there is room and dropped when there is
  none; nothing is delivered.\<close>

lemma spi_complete_more:
  assumes ok: "reasm_ok max_sz priv" and dv: "32 dvd max_sz"
    and v: "is_valid m" and mo: "has_more m"
  shows "\<exists>priv'. spi_complete max_sz m priv = Some priv'
           \<and> reasm_ok max_sz priv'
           \<and> rcvd_payload_idx priv' = min (rcvd_payload_idx priv + 32) (int max_sz)
           \<and> recv_calls priv' = recv_calls priv"
proof (cases "rcvd_payload_idx priv \<ge> int max_sz")
  case True
  with ok have "rcvd_payload_idx priv = int max_sz" by (simp add: reasm_ok_def)
  with ok v show ?thesis
    by (simp add: spi_complete_def txn_finished_cb_def Let_def is_valid_def reasm_ok_def)
next
  case False
  with ok dv have le: "rcvd_payload_idx priv + 32 \<le> int max_sz"
    by (auto simp: reasm_ok_def intro: next_multiple_fits)
  from ok le have "nat (rcvd_payload_idx priv) + 32 \<le> length (rcvd_payload priv)"
    unfolding reasm_ok_def by linarith
  moreover have "length (take SLICE_SPI_MSG_PAYLOAD_SZ (data m)) \<le> 32"
    by (simp add: SLICE_SPI_MSG_PAYLOAD_SZ_def)
  ultimately have fits:
    "nat (rcvd_payload_idx priv) + length (take SLICE_SPI_MSG_PAYLOAD_SZ (data m))
       \<le> length (rcvd_payload priv)"
    by linarith
  from ok have nn: "0 \<le> rcvd_payload_idx priv" by (simp add: reasm_ok_def)
  from buf_write_in_bounds[OF nn fits] obtain b where
    b: "buf_write (rcvd_payload priv) (rcvd_payload_idx priv)
          (take SLICE_SPI_MSG_PAYLOAD_SZ (data m)) = Some b"
    by blast
  from length_buf_write[OF b] ok have "length b = max_sz" by (simp add: reasm_ok_def)
  with ok v mo False le b show ?thesis
    by (simp add: spi_complete_def txn_finished_cb_def Let_def is_valid_def has_more_def
          reasm_ok_def SLICE_SPI_MSG_PAYLOAD_SZ_def)
qed

text \<open>A valid packet that arrives when the cursor is at capacity is dropped, whatever its
  MORE bit, and the cursor stays where it is.\<close>

lemma spi_complete_full:
  assumes "rcvd_payload_idx priv \<ge> int max_sz" and "is_valid m"
  shows "\<exists>priv'. spi_complete max_sz m priv = Some priv'
           \<and> rcvd_payload_idx priv' = rcvd_payload_idx priv
           \<and> rcvd_payload priv' = rcvd_payload priv
           \<and> recv_calls priv' = recv_calls priv"
  using assms
  by (simp add: spi_complete_def txn_finished_cb_def Let_def is_valid_def)

lemma receive_all_append:
  "receive_all max_sz (xs @ ys) priv =
     (case receive_all max_sz xs priv of None \<Rightarrow> None
      | Some priv' \<Rightarrow> receive_all max_sz ys priv')"
  by (induction xs arbitrary: priv) (auto split: option.splits)

lemma receive_all_more:
  assumes "reasm_ok max_sz priv" "32 dvd max_sz"
    and "\<forall>m \<in> set ms. is_valid m \<and> has_more m"
  shows "\<exists>priv'. receive_all max_sz ms priv = Some priv'
           \<and> reasm_ok max_sz priv'
           \<and> rcvd_payload_idx priv'
               = min (rcvd_payload_idx priv + 32 * int (length ms)) (int max_sz)
           \<and> recv_calls priv' = recv_calls priv"
  using assms
proof (induction ms arbitrary: priv)
  case Nil
  then show ?case by (simp add: reasm_ok_def)
next
  case (Cons m ms)
  from Cons.prems have "is_valid m" "has_more m" by simp_all
  from spi_complete_more[OF Cons.prems(1,2) this] obtain p1 where
    p1: "spi_complete max_sz m priv = Some p1" "reasm_ok max_sz p1"
        "rcvd_payload_idx p1 = min (rcvd_payload_idx priv + 32) (int max_sz)"
        "recv_calls p1 = recv_calls priv" by blast
  from Cons.prems have "\<forall>m \<in> set ms. is_valid m \<and> has_more m" by simp
  from Cons.IH[OF p1(2) Cons.prems(2) this] obtain p2 where
    p2: "receive_all max_sz ms p1 = Some p2" "reasm_ok max_sz p2"
        "rcvd_payload_idx p2 = min (rcvd_payload_idx p1 + 32 * int (length ms)) (int max_sz)"
        "recv_calls p2 = recv_calls p1" by blast
  from p1 p2 show ?case by (auto simp: min_def)
qed

lemma capacity_reached:
  assumes "32 dvd (c::nat)" "c < n * 32" "0 \<le> (i::int)"
  shows "min (i + 32 * int (n - 1)) (int c) = int c"
proof -
  from assms(1) obtain q where q: "c = 32 * q" by (auto simp: dvd_def)
  with assms(2) have "q < n" by simp
  then have "32 * q \<le> 32 * (n - 1)" by simp
  with q have "int c \<le> 32 * int (n - 1)" by simp
  with assms(3) show ?thesis by simp
qed

text \<open>The same from any state whose cursor is a multiple of 32 inside the buffer.\<close>

lemma oversized_message_from_any_cursor:
  assumes dv: "SLICE_SPI_MSG_PAYLOAD_SZ dvd max_sz"
    and len: "length (rcvd_payload priv) = max_sz"
    and i0: "0 \<le> rcvd_payload_idx priv"
    and idv: "int SLICE_SPI_MSG_PAYLOAD_SZ dvd rcvd_payload_idx priv"
    and ile: "rcvd_payload_idx priv \<le> int max_sz"
    and val: "\<forall>m \<in> set ms. is_valid m"
    and more: "\<forall>m \<in> set (butlast ms). has_more m"
    and big: "max_sz < length ms * SLICE_SPI_MSG_PAYLOAD_SZ"
    and k: "k \<le> length ms"
  shows "\<exists>priv'. receive_all max_sz (take k ms) priv = Some priv'
           \<and> length (rcvd_payload priv') = max_sz
           \<and> rcvd_payload_idx priv' \<le> int max_sz
           \<and> recv_calls priv' = recv_calls priv"
proof -
  from len i0 idv ile have ok: "reasm_ok max_sz priv"
    by (simp add: reasm_ok_def SLICE_SPI_MSG_PAYLOAD_SZ_def)
  from dv have dv32: "32 dvd max_sz" by (simp add: SLICE_SPI_MSG_PAYLOAD_SZ_def)
  from big have big32: "max_sz < length ms * 32" by (simp add: SLICE_SPI_MSG_PAYLOAD_SZ_def)
  from val more have body: "\<forall>m \<in> set (butlast ms). is_valid m \<and> has_more m"
    by (auto dest: in_set_butlastD)
  show ?thesis
  proof (cases "k < length ms")
    case True
    then have "take k ms = take k (butlast ms)" by (simp add: take_butlast)
    then have "set (take k ms) \<subseteq> set (butlast ms)" by (simp add: set_take_subset)
    with body have "\<forall>m \<in> set (take k ms). is_valid m \<and> has_more m" by blast
    from receive_all_more[OF ok dv32 this] show ?thesis
      by (auto simp: reasm_ok_def)
  next
    case False
    with k have kn: "k = length ms" by simp
    from big32 have ne: "ms \<noteq> []" by auto
    from receive_all_more[OF ok dv32 body] obtain p1 where
      p1: "receive_all max_sz (butlast ms) priv = Some p1" "reasm_ok max_sz p1"
          "rcvd_payload_idx p1
             = min (rcvd_payload_idx priv + 32 * int (length (butlast ms))) (int max_sz)"
          "recv_calls p1 = recv_calls priv" by blast
    from p1(3) capacity_reached[OF dv32 big32 i0]
    have full: "rcvd_payload_idx p1 \<ge> int max_sz" by simp
    from ne val have "is_valid (last ms)" by simp
    from spi_complete_full[OF full this] obtain p2 where
      p2: "spi_complete max_sz (last ms) p1 = Some p2"
          "rcvd_payload_idx p2 = rcvd_payload_idx p1"
          "rcvd_payload p2 = rcvd_payload p1"
          "recv_calls p2 = recv_calls p1" by blast
    from ne have "take k ms = butlast ms @ [last ms]" by (simp add: kn)
    with p1 p2 show ?thesis
      by (simp add: receive_all_append reasm_ok_def)
  qed
qed

lemma txn_finished_cb_length:
  assumes "txn_finished_cb max_sz priv = Some priv'"
  shows "length (rcvd_payload priv') = length (rcvd_payload priv)"
  using assms
  by (auto simp: txn_finished_cb_def Let_def deliver_def dest!: length_buf_write
           split: if_splits option.splits)

lemma length_payload_fire:
  assumes "fire max_sz t priv = Some priv'"
  shows "length (rcvd_payload priv') = length (rcvd_payload priv)"
proof (cases t)
  case (Complete m)
  with assms have
    "txn_finished_cb max_sz (priv\<lparr>rx_buf := m, spi_pending := spi_pending priv - 1\<rparr>)
       = Some priv'"
    by (simp add: spi_complete_def split: if_splits)
  from txn_finished_cb_length[OF this] show ?thesis by simp
qed (use assms in \<open>auto simp: wake_isr_def\<close>)

lemma length_payload_run:
  "run max_sz ts priv = Some priv'
     \<Longrightarrow> length (rcvd_payload priv') = length (rcvd_payload priv)"
proof (induction ts arbitrary: priv)
  case Nil
  then show ?case by simp
next
  case (Cons t ts)
  then show ?case by (auto split: option.splits dest: length_payload_fire)
qed

lemma reasm_ok_reachable:
  assumes "32 dvd max_sz" "run max_sz ts (slice_dl_init max_sz wake hint) = Some priv"
  shows "reasm_ok max_sz priv"
proof -
  from length_payload_run[OF assms(2)] have "length (rcvd_payload priv) = max_sz"
    by (simp add: slice_dl_init_def)
  moreover from idx_inv_run[OF idx_inv_init assms(2)] have "idx_inv max_sz priv" .
  ultimately show ?thesis using assms(1) by (simp add: reasm_ok_def idx_inv_def)
qed

text \<open>
  C5, with the proviso it needs: let \<open>SLICE_DL_PAYLOAD_MAX_SZ\<close> be a multiple of \<open>SLICE_SPI_MSG_PAYLOAD_SZ\<close>, let the
  driver be in a state it reaches from \<open>slice_dl_init\<close>, and let the valid packets \<open>ms\<close> of
  one message (MORE set on all but the last) carry more than \<open>SLICE_DL_PAYLOAD_MAX_SZ\<close>
  bytes. Then after every number \<open>k\<close> of them no write has left \<open>rcvd_payload\<close>, the cursor
  is at most \<open>SLICE_DL_PAYLOAD_MAX_SZ\<close> and \<open>recv\<close> has not been called.
\<close>

theorem oversized_message_never_overflows_nor_delivers:
  assumes dv: "SLICE_SPI_MSG_PAYLOAD_SZ dvd max_sz"
    and reach: "run max_sz ts (slice_dl_init max_sz wake hint) = Some priv"
    and val: "\<forall>m \<in> set ms. is_valid m"
    and more: "\<forall>m \<in> set (butlast ms). has_more m"
    and big: "max_sz < length ms * SLICE_SPI_MSG_PAYLOAD_SZ"
    and k: "k \<le> length ms"
  shows "\<exists>priv'. receive_all max_sz (take k ms) priv = Some priv'
           \<and> length (rcvd_payload priv') = max_sz
           \<and> rcvd_payload_idx priv' \<le> int max_sz
           \<and> recv_calls priv' = recv_calls priv"
proof -
  from dv have "32 dvd max_sz" by (simp add: SLICE_SPI_MSG_PAYLOAD_SZ_def)
  from reasm_ok_reachable[OF this reach] have ok: "reasm_ok max_sz priv" .
  then have "length (rcvd_payload priv) = max_sz" "0 \<le> rcvd_payload_idx priv"
    "int SLICE_SPI_MSG_PAYLOAD_SZ dvd rcvd_payload_idx priv"
    "rcvd_payload_idx priv \<le> int max_sz"
    by (simp_all add: reasm_ok_def SLICE_SPI_MSG_PAYLOAD_SZ_def)
  from oversized_message_from_any_cursor[OF dv this val more big k] show ?thesis .
qed

theorem oversized_message_never_overflows_nor_delivers_witness:
  "\<exists>priv'. receive_all 64 (take 3 [pkt 0xC0 1, pkt 0xC0 2, pkt 0x80 3])
              (slice_dl_init 64 False False) = Some priv'
     \<and> length (rcvd_payload priv') = 64
     \<and> rcvd_payload_idx priv' \<le> 64
     \<and> recv_calls priv' = []"
proof -
  have r: "run 64 [] (slice_dl_init 64 False False) = Some (slice_dl_init 64 False False)"
    by simp
  have "\<exists>priv'. receive_all 64 (take 3 [pkt 0xC0 1, pkt 0xC0 2, pkt 0x80 3])
              (slice_dl_init 64 False False) = Some priv'
     \<and> length (rcvd_payload priv') = 64
     \<and> rcvd_payload_idx priv' \<le> int 64
     \<and> recv_calls priv' = recv_calls (slice_dl_init 64 False False)"
    by (rule oversized_message_never_overflows_nor_delivers[OF _ r])
       (simp_all add: SLICE_SPI_MSG_PAYLOAD_SZ_def is_valid_def has_more_def
          pkt_def HDR_BIT_VALID_def HDR_BIT_MORE_def)
  then show ?thesis by (simp add: slice_dl_init_def)
qed

text \<open>
  C5 as stated, with no condition on \<open>SLICE_DL_PAYLOAD_MAX_SZ\<close>, fails: with a buffer of 48
  bytes the first packet of a two-packet message moves the cursor to 32, which is below
  48, and the 32 bytes of the second packet are copied to offsets 32 to 63.
\<close>

theorem oversized_message_overflow_counterexample:
  "map_option rcvd_payload_idx
     (receive_all 48 [pkt 0xC0 1] (slice_dl_init 48 False False)) = Some 32
   \<and> buf_write (replicate 32 1 @ replicate 16 0) 32 (data (pkt 0x80 2)) = None
   \<and> receive_all 48 [pkt 0xC0 1, pkt 0x80 2] (slice_dl_init 48 False False) = None"
  by (simp add: driver_defs)

subsection \<open>The cursor when the buffer is a whole number of packets\<close>








subsection \<open>Detach\<close>

text \<open>What \<open>attach_cb\<close> does: on detach it empties the queue; the reassembler, \<open>tx_buf\<close> and
  the RDY line are not touched. On attach it does nothing.\<close>

lemma attach_cb_effect:
  "tx_fifo (attach_cb False priv) = []
   \<and> rcvd_payload_idx (attach_cb False priv) = rcvd_payload_idx priv
   \<and> rcvd_payload (attach_cb False priv) = rcvd_payload priv
   \<and> tx_buf (attach_cb False priv) = tx_buf priv
   \<and> gpio_rdy_n (attach_cb False priv) = gpio_rdy_n priv
   \<and> attach_cb True priv = priv"
  by (simp add: attach_cb_def SPI_SLAVE_DMA_CANCEL_def Let_def)

text \<open>
  C8 at a failing input: the slice is detached after the first packet of a two-packet
  message has been received, while a packet of its own is with the exchange and another
  waits. After the detach and the re-attach the queue is empty, but the cursor is still
  32, \<open>tx_buf\<close> still holds the packet and RDY is still asserted, so that the WAKE interrupt
  starts no exchange. And when the next packet is received after such a detach, a message
  of one packet, it is delivered behind the 32 bytes from before the detach.
\<close>

theorem detach_leaves_reassembler_and_handshake:
  "map_option (\<lambda>priv. (tx_fifo priv, rcvd_payload_idx priv, tx_buf priv \<noteq> None,
                        gpio_rdy_n priv, spi_pending priv))
     (run 64 [Send [True, True] [1, 2, 3], Send [True, True] [4, 5, 6], WakeLevel False,
              WakeIrq, Complete (pkt 0xC0 7), Send [True, True] [7, 8, 9],
              Attach False, Attach True, WakeIrq]
        (slice_dl_init 64 True False))
   = Some ([], 32, True, False, 0)
   \<and> map_option recv_calls
       (Option.bind
          (run 64 [WakeIrq, Complete (pkt 0xC0 7), Attach False, Attach True]
             (slice_dl_init 64 False False))
          (receive_all 64 [pkt 0x80 9]))
     = Some [replicate 32 7 @ replicate 32 9]"
  by (simp add: driver_defs)

subsection \<open>An empty message\<close>

lemma queue_loop_done [simp]: "queue_loop buf len 0 heap fifo = (None, fifo)"
  by (cases "(buf, len, 0::size_t, heap, fifo)" rule: queue_loop.cases) simp_all

text \<open>
  C9, as the code has it: \<open>queue_data\<close> with \<open>len = 0\<close> returns 0 and adds no packet; all
  it does is the call of \<open>setup_exchange\<close>. So the queue is as before, except that its head
  is taken for transmission when an exchange can start (RDY at 1 and WAKE at 0).
\<close>

theorem queue_data_empty_message:
  "queue_data max_sz heap [] priv = (None, setup_exchange priv)
   \<and> tx_fifo (snd (queue_data max_sz heap [] priv))
       = (if gpio_rdy_n priv \<and> \<not> gpio_wake_n priv then tl (tx_fifo priv) else tx_fifo priv)"
proof -
  have "queue_data max_sz heap [] priv = (None, setup_exchange priv)"
    by (simp add: queue_data_def)
  moreover have "tx_fifo (setup_exchange priv)
       = (if gpio_rdy_n priv \<and> \<not> gpio_wake_n priv then tl (tx_fifo priv) else tx_fifo priv)"
    by (simp add: setup_exchange_def SPI_EXCHANGE_def Let_def split: list.split)
  ultimately show ?thesis by simp
qed

text \<open>
  C9 as stated fails: with a packet queued, RDY at 1 and WAKE at 0, the empty send takes
  the packet out of the queue.
\<close>

theorem queue_data_empty_message_counterexample:
  "map_option tx_fifo
     (run 64 [Send [True, True] [1, 2, 3], WakeLevel False] (slice_dl_init 64 True False))
   = Some [\<lparr>hdr_bits = 0x80, data = [1, 2, 3] @ replicate 29 0, crc16 = 0\<rparr>]
   \<and> map_option tx_fifo
     (run 64 [Send [True, True] [1, 2, 3], WakeLevel False, Send [] []]
        (slice_dl_init 64 True False))
   = Some []"
  by (simp add: driver_defs)

subsection \<open>The interrupt line to the base\<close>

text \<open>The value that \<open>setup_exchange\<close> passes to \<open>slice_host_int_set\<close> is \<open>tx_buf != NULL\<close>,
  also at the end of the completion callback, whose last call is \<open>setup_exchange\<close>.\<close>

lemma setup_exchange_host_int:
  "host_int (setup_exchange priv) = (tx_buf (setup_exchange priv) \<noteq> None)
   \<and> tx_buf (setup_exchange priv)
       = (if gpio_rdy_n priv \<and> \<not> gpio_wake_n priv \<and> tx_fifo priv \<noteq> []
          then Some (hd (tx_fifo priv)) else tx_buf priv)"
  by (simp add: setup_exchange_def SPI_EXCHANGE_def Let_def split: list.split)

lemma txn_finished_cb_host_int:
  assumes "txn_finished_cb max_sz priv = Some priv'"
  shows "host_int priv' = (tx_buf priv' \<noteq> None)"
proof -
  from txn_finished_cb_setup[OF assms] obtain q where "priv' = setup_exchange q" by blast
  then show ?thesis
    by (simp add: setup_exchange_def SPI_EXCHANGE_def Let_def split: list.split)
qed

text \<open>
  C7 at a failing input: WAKE is not asserted and a three-byte message is sent. The call
  of \<open>setup_exchange\<close> at the end of \<open>queue_data\<close> leaves the packet in the queue and passes
  \<open>false\<close> to \<open>slice_host_int_set\<close>, where the comment of the code has "Set the base
  interrupt line if data is available to be sent".
\<close>

theorem host_int_false_with_packet_queued:
  "fst (queue_data 64 [True, True] [1, 2, 3] (slice_dl_init 64 True True)) = None
   \<and> tx_fifo (snd (queue_data 64 [True, True] [1, 2, 3] (slice_dl_init 64 True True)))
       = [\<lparr>hdr_bits = 0x80, data = [1, 2, 3] @ replicate 29 0, crc16 = 0\<rparr>]
   \<and> host_int (snd (queue_data 64 [True, True] [1, 2, 3] (slice_dl_init 64 True True)))
       = False"
  by (simp add: driver_defs)

subsection \<open>After an overflow\<close>

lemma receive_all_full:
  assumes "rcvd_payload_idx priv \<ge> int max_sz" and "\<forall>m \<in> set ms. is_valid m"
  shows "\<exists>priv'. receive_all max_sz ms priv = Some priv'
           \<and> rcvd_payload_idx priv' = rcvd_payload_idx priv
           \<and> recv_calls priv' = recv_calls priv"
  using assms
proof (induction ms arbitrary: priv)
  case Nil
  then show ?case by simp
next
  case (Cons m ms)
  from Cons.prems have "is_valid m" by simp
  from spi_complete_full[OF Cons.prems(1) this] obtain p1 where
    p1: "spi_complete max_sz m priv = Some p1" "rcvd_payload_idx p1 = rcvd_payload_idx priv"
        "recv_calls p1 = recv_calls priv" by blast
  from Cons.prems p1 have "rcvd_payload_idx p1 \<ge> int max_sz" "\<forall>m \<in> set ms. is_valid m"
    by simp_all
  from Cons.IH[OF this] p1 show ?case by auto
qed

text \<open>
  C6 at a failing input, with \<open>SLICE_DL_PAYLOAD_MAX_SZ = 64\<close>: four packets of one message
  of 128 bytes, then a message of one packet. The cursor stays at 64 after the last packet
  of the long message and the message that follows is not delivered.
\<close>

theorem cursor_stuck_after_overflow:
  "map_option (\<lambda>priv. (rcvd_payload_idx priv, recv_calls priv))
     (run 64 [WakeIrq, Complete (pkt 0xC0 1), Complete (pkt 0xC0 2), Complete (pkt 0xC0 3),
              Complete (pkt 0x80 4)] (slice_dl_init 64 False False))
   = Some (64, [])
   \<and> map_option (\<lambda>priv. (rcvd_payload_idx priv, recv_calls priv))
     (run 64 [WakeIrq, Complete (pkt 0xC0 1), Complete (pkt 0xC0 2), Complete (pkt 0xC0 3),
              Complete (pkt 0x80 4), Complete (pkt 0x80 5)] (slice_dl_init 64 False False))
   = Some (64, [])"
  by (simp add: driver_defs)

subsection \<open>Fragmenting a message\<close>

text \<open>
  C4 at a failing input: a message of 64 bytes, the two allocations of the first packet
  succeed and the next one fails. \<open>queue_data\<close> returns \<open>-ENOMEM\<close> and the first packet,
  with MORE set, stays in the queue.
\<close>

theorem queue_data_enomem_partial_enqueue:
  "queue_data 64 [True, True, False] (replicate 32 1 @ replicate 32 2)
     (slice_dl_init 64 True False)
   = (Some ENOMEM,
      (slice_dl_init 64 True False)
        \<lparr>tx_fifo := [\<lparr>hdr_bits = 0xC0, data = replicate 32 1, crc16 = 0\<rparr>]\<rparr>)"
  by (simp add: driver_defs)

text \<open>The payload of a packet does not depend on \<open>remaining\<close>: every packet of a message
  carries its first bytes.\<close>

lemma fill_msg_data:
  "data (fill_msg buf len remaining)
     = memcpy (replicate SLICE_SPI_MSG_PAYLOAD_SZ 0) buf (unat (min len 32))"
  by (simp add: fill_msg_def zalloc_msg_def Let_def)

text \<open>
  C1 at a failing input: a message of 64 bytes, 32 bytes of value 1 and 32 bytes of value
  2. Both packets carry the first 32 bytes, and the message delivered is 64 bytes of
  value 1.
\<close>

theorem fragments_repeat_first_chunk:
  "fst (queue_data 64 [True, True, True, True] (replicate 32 1 @ replicate 32 2)
          (slice_dl_init 64 True False)) = None
   \<and> map data (tx_fifo (snd (queue_data 64 [True, True, True, True]
                                  (replicate 32 1 @ replicate 32 2)
                                  (slice_dl_init 64 True False))))
       = [replicate 32 1, replicate 32 1]
   \<and> map_option recv_calls
        (receive_all 64
           (tx_fifo (snd (queue_data 64 [True, True, True, True]
                            (replicate 32 1 @ replicate 32 2)
                            (slice_dl_init 64 True False))))
           (slice_dl_init 64 True False))
       = Some [replicate 32 1 @ replicate 32 1]"
  by (simp add: driver_defs)

text \<open>
  C2 at a failing input: a message of 70 bytes. After three packets \<open>remaining\<close> is 6 and
  the subtraction of 32 wraps; the loop goes on. With memory for four packets,
  \<open>queue_data\<close> returns \<open>-ENOMEM\<close> and the queue holds four packets, MORE set on all but
  the third.
\<close>

theorem seventy_bytes_loop_runs_on:
  "fst (queue_data 128 [True, True, True, True, True, True, True, True] (replicate 70 1)
          (slice_dl_init 128 True False)) = Some ENOMEM
   \<and> map has_more
        (tx_fifo (snd (queue_data 128 [True, True, True, True, True, True, True, True]
                         (replicate 70 1) (slice_dl_init 128 True False))))
       = [True, True, False, True]"
  by (simp add: driver_defs word_gt_0)

lemma uint_sub_32_mod: "uint (r - 32 :: size_t) mod 32 = uint r mod 32"
proof -
  have d: "(32::int) dvd 2 ^ LENGTH(32)" by simp
  have "uint (r - 32) = (uint r - 32) mod 2 ^ LENGTH(32)"
    by (simp add: uint_word_ariths)
  then have "uint (r - 32) mod 32 = (uint r - 32) mod 2 ^ LENGTH(32) mod 32" by simp
  also have "\<dots> = (uint r - 32) mod 32" using d by (rule mod_mod_cancel)
  also have "\<dots> = uint r mod 32" by (simp add: mod_diff_right_eq [symmetric])
  finally show ?thesis .
qed

lemma queue_loop_no_exit:
  assumes "min len 32 = 32" "uint remaining mod 32 \<noteq> 0"
  shows "fst (queue_loop buf len remaining heap fifo) = Some ENOMEM"
  using assms
proof (induction buf len remaining heap fifo rule: queue_loop.induct)
  case (1 buf len remaining fifo)
  then have "remaining \<noteq> 0" by auto
  then show ?case by (simp add: word_gt_0)
next
  case (2 buf len remaining a1 fifo)
  then have "remaining \<noteq> 0" by auto
  then show ?case by (simp add: word_gt_0)
next
  case (3 buf len remaining a1 a2 heap fifo)
  from "3.prems"(2) have nz: "0 < remaining" by (auto simp: word_gt_0)
  from "3.prems"(2) have "uint (remaining - 32) mod 32 \<noteq> 0"
    by (simp only: uint_sub_32_mod not_False_eq_True)
  with "3.prems"(1) have step: "uint (remaining - min len 32) mod 32 \<noteq> 0" by simp
  show ?case
  proof (cases "a1 \<and> a2")
    case True
    with nz have "fst (queue_loop buf len (remaining - min len 32) heap
                         (list_add fifo (fill_msg buf len remaining))) = Some ENOMEM"
      using "3.IH" "3.prems"(1) step by simp
    with True nz show ?thesis by simp
  next
    case False
    with nz show ?thesis by auto
  qed
qed

text \<open>
  A message of more than 32 bytes whose length is not a multiple of 32 (70 bytes, say):
  whatever memory there is, \<open>queue_data\<close> does not return 0. The loop ends only when an
  allocation fails.
\<close>

lemma queue_data_loop_never_exits:
  assumes "32 < length buf" "\<not> 32 dvd length buf" "length buf \<le> max_sz"
    and "length buf < 2 ^ 32"
  shows "fst (queue_data max_sz heap buf priv) = Some ENOMEM"
proof -
  let ?len = "word_of_nat (length buf) :: size_t"
  from assms(4) have u: "unat ?len = length buf"
    by (intro of_nat_inverse) simp_all
  then have ui: "uint ?len = int (length buf)"
    by (metis uint_nat)
  from assms(1) u have "32 < ?len" by (simp add: word_less_nat_alt)
  then have m: "min ?len 32 = 32" by (simp add: min_def not_le [symmetric])
  from assms(2) have "int (length buf) mod 32 \<noteq> 0"
    by (metis int_dvd_int_iff mod_0_imp_dvd of_nat_numeral)
  with ui have "uint ?len mod 32 \<noteq> 0" by simp
  from queue_loop_no_exit[OF m this]
  have "fst (queue_loop buf ?len ?len heap (tx_fifo priv)) = Some ENOMEM" .
  with assms(3) u show ?thesis
    by (auto simp: queue_data_def Let_def split: prod.split option.split)
qed

lemma queue_loop_not_E2BIG: "fst (queue_loop buf len remaining heap fifo) \<noteq> Some E2BIG"
  by (induction buf len remaining heap fifo rule: queue_loop.induct) simp_all

text \<open>The other error: \<open>-E2BIG\<close> is returned exactly for \<open>len > SLICE_DL_PAYLOAD_MAX_SZ\<close>,
  and then nothing has changed.\<close>

lemma queue_data_E2BIG_iff:
  "fst (queue_data max_sz heap buf priv) = Some E2BIG
     \<longleftrightarrow> max_sz < unat (word_of_nat (length buf) :: size_t)"
  using queue_loop_not_E2BIG[of buf "word_of_nat (length buf)" "word_of_nat (length buf)"
          heap "tx_fifo priv"]
  by (auto simp: queue_data_def Let_def split: prod.split option.split)

lemma queue_data_E2BIG_unchanged:
  "max_sz < unat (word_of_nat (length buf) :: size_t)
     \<Longrightarrow> queue_data max_sz heap buf priv = (Some E2BIG, priv)"
  by (simp add: queue_data_def)

end
